theory Spec2Isabelle
  imports Complex_Main "HOL-Library.Product_Lexorder"
begin

section \<open>Dates and times\<close>

text \<open>
  Python's naive \<open>datetime\<close>. The calendar date is kept as its proleptic Gregorian
  ordinal (\<open>date.toordinal()\<close>), so that \<open>+ timedelta(days=1)\<close> is \<open>+ 1\<close> on the
  ordinal and the weekday is read off it. Ordinals are unbounded integers: the limit
  of \<open>datetime\<close> at year 9999 is outside the model.
\<close>

record datetime =
  day :: int
  hour :: int
  minute :: int
  second :: int
  microsecond :: int

definition dt_key :: "datetime \<Rightarrow> int \<times> int \<times> int \<times> int \<times> int" where
  "dt_key d = (day d, hour d, minute d, second d, microsecond d)"

text \<open>\<open>a < b\<close> and \<open>a <= b\<close> on datetimes: field by field, as Python compares them.\<close>

definition dt_less :: "datetime \<Rightarrow> datetime \<Rightarrow> bool" where
  "dt_less a b = (dt_key a < dt_key b)"

definition dt_le :: "datetime \<Rightarrow> datetime \<Rightarrow> bool" where
  "dt_le a b = (dt_key a \<le> dt_key b)"

text \<open>\<open>date.weekday()\<close>: Monday is 0, Sunday is 6.\<close>

definition weekday :: "datetime \<Rightarrow> int" where
  "weekday d = (day d + 6) mod 7"

text \<open>\<open>d + timedelta(days=n)\<close>.\<close>

definition plus_days :: "datetime \<Rightarrow> int \<Rightarrow> datetime" where
  "plus_days d n = d\<lparr>day := day d + n\<rparr>"

text \<open>\<open>d.replace(hour=h, minute=m, second=s)\<close>: date and microsecond are kept.\<close>

definition replace_hms :: "datetime \<Rightarrow> int \<Rightarrow> int \<Rightarrow> int \<Rightarrow> datetime" where
  "replace_hms d h m s = d\<lparr>hour := h, minute := m, second := s\<rparr>"

definition micros :: "datetime \<Rightarrow> int" where
  "micros d = (((day d * 24 + hour d) * 60 + minute d) * 60 + second d) * 1000000 + microsecond d"

text \<open>\<open>(a - b).days\<close>: a timedelta is normalised with \<open>0 <= seconds < 86400\<close>, so its
  \<open>days\<close> is the floor of the difference.\<close>

definition delta_days :: "datetime \<Rightarrow> datetime \<Rightarrow> int" where
  "delta_days a b = (micros a - micros b) div 86400000000"

definition valid_time :: "datetime \<Rightarrow> bool" where
  "valid_time d = (0 \<le> hour d \<and> hour d < 24 \<and> 0 \<le> minute d \<and> minute d < 60 \<and>
     0 \<le> second d \<and> second d < 60 \<and> 0 \<le> microsecond d \<and> microsecond d < 1000000)"

text \<open>The text \<open>strftime\<close> produces, kept structured: \<open>%Y-%m-%d\<close> is the date alone,
  \<open>%Y-%m-%d %H:%M:%S\<close> adds the time of day and drops the microsecond.\<close>

datatype rendered = Date_text int | Date_time_text int int int int

definition strftime_date :: "datetime \<Rightarrow> rendered" where
  "strftime_date d = Date_text (day d)"

definition strftime_full :: "datetime \<Rightarrow> rendered" where
  "strftime_full d = Date_time_text (day d) (hour d) (minute d) (second d)"

section \<open>Exceptions\<close>

text \<open>
  A \<open>fault\<close> is an exception raised by the world outside the program (the operating
  system, the terminal, the interpreter's signal handler). \<open>Exception_other\<close> stands for
  any further subclass of \<open>Exception\<close>.
\<close>

datatype fault = KeyboardInterrupt | FileNotFoundError | PermissionError | OSError_other
  | EOFError | Exception_other

text \<open>Each \<open>sys.exit(1)\<close> of the source is one site; the site names the source line.\<close>

datatype exit_site = Exit_git_missing | Exit_mkdir | Exit_git_config | Exit_readme
  | Exit_data | Exit_bad_date | Exit_unexpected

datatype exn = SystemExit exit_site int | CalledProcessError | Fault fault

text \<open>\<open>IOError\<close> is \<open>OSError\<close> in Python 3.\<close>

definition is_OSError :: "fault \<Rightarrow> bool" where
  "is_OSError f = (f = FileNotFoundError \<or> f = PermissionError \<or> f = OSError_other)"

text \<open>What \<open>except Exception\<close> catches: not \<open>SystemExit\<close>, not \<open>KeyboardInterrupt\<close>.\<close>

fun is_Exception :: "exn \<Rightarrow> bool" where
  "is_Exception (SystemExit s c) = False"
| "is_Exception CalledProcessError = True"
| "is_Exception (Fault f) = (f \<noteq> KeyboardInterrupt)"

section \<open>The world\<close>

text \<open>A finished subprocess (return code and captured standard output), or the
  exception \<open>subprocess.run\<close> raised instead of starting or finishing it.\<close>

datatype outcome = Completed int string | Raises fault

text \<open>Lines the program writes to its two seed files.\<close>

datatype text_line = Readme_heading | Readme_about | Readme_generated rendered
  | Data_heading | Data_started rendered | Entrada rendered int

datatype fs_op = Op_mkdir string | Op_open_write string | Op_open_append string

datatype printed = P_int int | P_str string | P_time rendered

text \<open>
  Everything the program does to its surroundings, newest first in \<open>trace\<close>.
  \<open>Print n vs\<close> is the \<open>print\<close> call at source line \<open>n\<close> with the values it interpolates.
  \<open>Call_create_commit t\<close> marks an entry into \<open>create_commit\<close> with timestamp \<open>t\<close>.
\<close>

datatype event = Now datetime
  | Run "string list" "rendered option" outcome
  | Mkdir string
  | Write_file string "text_line list"
  | Append_file string text_line
  | Input_line nat
  | Print nat "printed list"
  | Call_create_commit datetime

text \<open>
  The surroundings answer by the number of the interaction (\<open>tick\<close>): the clock, the
  random generator's raw output, the git executable, the file system and the terminal are
  arbitrary functions of it, so every behaviour of the surroundings is some world.
  \<open>strptime_ymd\<close> is \<open>datetime.strptime(s, '%Y-%m-%d')\<close>: the ordinal of the date, or
  \<open>None\<close> for \<open>ValueError\<close>. \<open>files\<close> holds the content of the files the program
  itself writes; what git does to the work tree is outside the model.
\<close>

record world =
  tick :: nat
  clock :: "nat \<Rightarrow> datetime"
  entropy :: "nat \<Rightarrow> nat"
  git_tool :: "string list \<Rightarrow> nat \<Rightarrow> outcome"
  fs_fault :: "fs_op \<Rightarrow> nat \<Rightarrow> fault option"
  stdin :: "nat \<Rightarrow> fault + string"
  strptime_ymd :: "string \<Rightarrow> int option"
  resolve :: "string \<Rightarrow> string"
  cwd :: string
  has_git_dir :: "string \<Rightarrow> bool"
  files :: "string \<Rightarrow> text_line list option"
  trace :: "event list"

definition step :: "world \<Rightarrow> world" where
  "step w = w\<lparr>tick := Suc (tick w)\<rparr>"

definition emit :: "event \<Rightarrow> world \<Rightarrow> world" where
  "emit e w = w\<lparr>trace := e # trace w\<rparr>"

definition print_at :: "nat \<Rightarrow> printed list \<Rightarrow> world \<Rightarrow> world" where
  "print_at n vs w = emit (Print n vs) w"

text \<open>\<open>datetime.now()\<close>.\<close>

definition now :: "world \<Rightarrow> datetime \<times> world" where
  "now w = (clock w (tick w), emit (Now (clock w (tick w))) (step w))"

text \<open>
  The \<open>random\<close> module, by its contract: \<open>random()\<close> is a multiple of \<open>2^-53\<close> in
  \<open>[0, 1)\<close>, \<open>randint(a, b)\<close> (called with \<open>a <= b\<close> only) lies in \<open>[a, b]\<close>,
  \<open>choice(xs)\<close> (called on non-empty lists only) is an element of \<open>xs\<close>.
  The float literals the results are compared with are read as exact decimals.
\<close>

definition random_random :: "world \<Rightarrow> rat \<times> world" where
  "random_random w = (of_nat (entropy w (tick w) mod 2 ^ 53) / 2 ^ 53, step w)"

definition randint :: "int \<Rightarrow> int \<Rightarrow> world \<Rightarrow> int \<times> world" where
  "randint a b w = (a + int (entropy w (tick w) mod nat (b - a + 1)), step w)"

definition choice :: "'a list \<Rightarrow> world \<Rightarrow> 'a \<times> world" where
  "choice xs w = (xs ! (entropy w (tick w) mod length xs), step w)"

text \<open>\<open>input(...)\<close>: a line, or \<open>EOFError\<close> or \<open>KeyboardInterrupt\<close> from the terminal.\<close>

definition input :: "nat \<Rightarrow> world \<Rightarrow> (exn + string) \<times> world" where
  "input n w = (case stdin w (tick w) of
       Inl f \<Rightarrow> (Inl (Fault f), emit (Input_line n) (step w))
     | Inr s \<Rightarrow> (Inr s, emit (Input_line n) (step w)))"

text \<open>\<open>str.strip()\<close> and \<open>str.lower()\<close> on ASCII text.\<close>

definition is_space :: "char \<Rightarrow> bool" where
  "is_space c = (c \<in> set [CHR '' '', CHR 0x09, CHR 0x0A, CHR 0x0B, CHR 0x0C, CHR 0x0D,
     CHR 0x1C, CHR 0x1D, CHR 0x1E, CHR 0x1F])"

definition strip :: "string \<Rightarrow> string" where
  "strip s = rev (dropWhile is_space (rev (dropWhile is_space s)))"

definition lower_char :: "char \<Rightarrow> char" where
  "lower_char c = (if (65::nat) \<le> of_char c \<and> of_char c \<le> (90::nat)
     then char_of (of_char c + (32::nat)) else c)"

definition lower :: "string \<Rightarrow> string" where
  "lower s = map lower_char s"

text \<open>\<open>response in ['y', 'yes', 'si' with an acute accent, 's']\<close>; the accented letter
  is its two UTF-8 bytes.\<close>

definition affirmative :: "string \<Rightarrow> bool" where
  "affirmative r = (r \<in> set [''y'', ''yes'', [CHR ''s'', CHR 0xC3, CHR 0xAD], ''s''])"

definition starts_with :: "string \<Rightarrow> string \<Rightarrow> bool" where
  "starts_with s p = (take (length p) s = p)"

definition path_join :: "string \<Rightarrow> string \<Rightarrow> string" where
  "path_join p n = p @ ''/'' @ n"

section \<open>The filler\<close>

record filler =
  repo_path :: string
  start_date :: datetime
  end_date :: datetime
  original_cwd :: string
  author_name :: "string option"
  author_email :: "string option"

text \<open>\<open>__init__\<close>: \<open>start_date or (datetime.now() - timedelta(days=365))\<close> reads the clock
  only when no start date is given; \<open>end_date\<close> is the clock at construction.\<close>

definition init :: "string \<Rightarrow> datetime option \<Rightarrow> string option \<Rightarrow> string option \<Rightarrow> world
    \<Rightarrow> filler \<times> world" where
  "init path start name email w =
     (case (case start of Some d \<Rightarrow> (d, w)
                        | None \<Rightarrow> (case now w of (n, w1) \<Rightarrow> (plus_days n (- 365), w1))) of
        (s, w1) \<Rightarrow>
     (case now w1 of (e, w2) \<Rightarrow>
        (\<lparr>repo_path = resolve w path, start_date = s, end_date = e, original_cwd = cwd w,
          author_name = name, author_email = email\<rparr>, w2)))"

text \<open>\<open>subprocess.run(command, env=env, capture_output=True, ...)\<close>; \<open>env\<close> is the
  date put into \<open>GIT_AUTHOR_DATE\<close> and \<open>GIT_COMMITTER_DATE\<close>, if any.\<close>

definition subprocess_run :: "string list \<Rightarrow> rendered option \<Rightarrow> world \<Rightarrow> outcome \<times> world" where
  "subprocess_run command env w =
     (git_tool w command (tick w), emit (Run command env (git_tool w command (tick w))) (step w))"

text \<open>\<open>_run_git_command\<close>: \<open>CalledProcessError\<close> is reported and raised again; anything
  else \<open>subprocess.run\<close> raises passes through.\<close>

definition run_git_command :: "string list \<Rightarrow> rendered option \<Rightarrow> bool \<Rightarrow> world
    \<Rightarrow> (exn + int \<times> string) \<times> world" where
  "run_git_command command env check w =
     (case subprocess_run command env w of
        (Raises f, w1) \<Rightarrow> (Inl (Fault f), w1)
      | (Completed rc out, w1) \<Rightarrow>
          if check \<and> rc \<noteq> 0
          then (Inl CalledProcessError, print_at 38 [] (print_at 37 [] w1))
          else (Inr (rc, out), w1))"

text \<open>\<open>_check_git_installed\<close>.\<close>

definition check_git_installed :: "world \<Rightarrow> (exn + unit) \<times> world" where
  "check_git_installed w =
     (case subprocess_run [''git'', ''--version''] None w of
        (Completed rc out, w1) \<Rightarrow>
          if rc \<noteq> 0
          then (Inl (SystemExit Exit_git_missing 1), print_at 47 [] (print_at 46 [] w1))
          else (Inr (), w1)
      | (Raises f, w1) \<Rightarrow>
          if f = FileNotFoundError
          then (Inl (SystemExit Exit_git_missing 1), print_at 47 [] (print_at 46 [] w1))
          else (Inl (Fault f), w1))"

text \<open>\<open>a or input(...).strip() or default\<close>.\<close>

definition ask_or_default :: "string option \<Rightarrow> nat \<Rightarrow> string \<Rightarrow> world \<Rightarrow> (exn + string) \<times> world" where
  "ask_or_default given n dflt w =
     (case given of
        Some (c # cs) \<Rightarrow> (Inr (c # cs), w)
      | _ \<Rightarrow> (case input n w of
              (Inl e, w1) \<Rightarrow> (Inl e, w1)
            | (Inr s, w1) \<Rightarrow> (Inr (if strip s \<noteq> [] then strip s else dflt), w1)))"

text \<open>The part of \<open>_setup_git_config\<close> after both reads, when one of them found nothing.\<close>

definition configure_missing :: "filler \<Rightarrow> bool \<Rightarrow> bool \<Rightarrow> world \<Rightarrow> (exn + bool) \<times> world" where
  "configure_missing f name_configured email_configured w =
     (case (if \<not> name_configured
            then (case ask_or_default (author_name f) 68 ''GitHub Contributions Bot'' (print_at 65 [] w) of
                    (Inl e, w1) \<Rightarrow> (Inl e, w1)
                  | (Inr name, w1) \<Rightarrow>
                      (case run_git_command [''git'', ''config'', ''user.name'', name] None True w1 of
                         (Inl e, w2) \<Rightarrow> (Inl e, w2)
                       | (Inr r, w2) \<Rightarrow> (Inr (), print_at 70 [P_str name] w2)))
            else (Inr (), print_at 65 [] w)) of
        (Inl e, w3) \<Rightarrow> (Inl e, w3)
      | (Inr u, w3) \<Rightarrow>
          if \<not> email_configured
          then (case ask_or_default (author_email f) 73 ''contributions@example.com'' w3 of
                  (Inl e, w4) \<Rightarrow> (Inl e, w4)
                | (Inr email, w4) \<Rightarrow>
                    (case run_git_command [''git'', ''config'', ''user.email'', email] None True w4 of
                       (Inl e, w5) \<Rightarrow> (Inl e, w5)
                     | (Inr r, w5) \<Rightarrow> (Inr True, print_at 75 [P_str email] w5)))
          else (Inr True, w3))"

text \<open>The \<open>try\<close> block of \<open>_setup_git_config\<close>.\<close>

definition setup_git_config_try :: "filler \<Rightarrow> world \<Rightarrow> (exn + bool) \<times> world" where
  "setup_git_config_try f w =
     (case run_git_command [''git'', ''config'', ''user.name''] None False w of
        (Inl e, w1) \<Rightarrow> (Inl e, w1)
      | (Inr (name_rc, name_out), w1) \<Rightarrow>
     (case run_git_command [''git'', ''config'', ''user.email''] None False w1 of
        (Inl e, w2) \<Rightarrow> (Inl e, w2)
      | (Inr (email_rc, email_out), w2) \<Rightarrow>
          if (name_rc = 0 \<and> strip name_out \<noteq> []) \<and> (email_rc = 0 \<and> strip email_out \<noteq> [])
          then (Inr True, print_at 61 [P_str (strip name_out), P_str (strip email_out)] w2)
          else configure_missing f (name_rc = 0 \<and> strip name_out \<noteq> [])
                 (email_rc = 0 \<and> strip email_out \<noteq> []) w2))"

text \<open>\<open>_setup_git_config\<close>: \<open>except Exception\<close> turns a failure into \<open>False\<close>.\<close>

definition setup_git_config :: "filler \<Rightarrow> world \<Rightarrow> (exn + bool) \<times> world" where
  "setup_git_config f w =
     (case setup_git_config_try f w of
        (Inl e, w1) \<Rightarrow> if is_Exception e then (Inr False, print_at 80 [] w1) else (Inl e, w1)
      | (Inr b, w1) \<Rightarrow> (Inr b, w1))"

text \<open>\<open>open(path, 'w')\<close> followed by the writes of the \<open>with\<close> block; a failure is one of
  \<open>open\<close>, before the file is touched.\<close>

definition write_file :: "string \<Rightarrow> text_line list \<Rightarrow> world \<Rightarrow> world" where
  "write_file p ls w = emit (Write_file p ls) (w\<lparr>files := (files w)(p \<mapsto> ls)\<rparr>)"

definition append_file :: "string \<Rightarrow> text_line \<Rightarrow> world \<Rightarrow> world" where
  "append_file p l w = emit (Append_file p l)
     (w\<lparr>files := (files w)(p \<mapsto> (case files w p of None \<Rightarrow> [l] | Some ls \<Rightarrow> ls @ [l]))\<rparr>)"

text \<open>One seed file of \<open>_create_initial_files\<close>: written only if absent.\<close>

definition create_seed :: "string \<Rightarrow> (rendered \<Rightarrow> text_line list) \<Rightarrow> nat \<Rightarrow> exit_site \<Rightarrow> world
    \<Rightarrow> (exn + unit) \<times> world" where
  "create_seed p content line site w =
     (if files w p = None
      then (case fs_fault w (Op_open_write p) (tick w) of
              Some fl \<Rightarrow>
                if is_OSError fl then (Inl (SystemExit site 1), print_at line [] (step w))
                else (Inl (Fault fl), step w)
            | None \<Rightarrow>
                (case now (step w) of (n, w1) \<Rightarrow>
                   (Inr (), write_file p (content (strftime_full n)) w1)))
      else (Inr (), w))"

text \<open>\<open>_create_initial_files\<close>.\<close>

definition create_initial_files :: "filler \<Rightarrow> world \<Rightarrow> (exn + unit) \<times> world" where
  "create_initial_files f w =
     (case create_seed (path_join (repo_path f) ''README.md'')
             (\<lambda>t. [Readme_heading, Readme_about, Readme_generated t]) 137 Exit_readme w of
        (Inl e, w1) \<Rightarrow> (Inl e, w1)
      | (Inr u, w1) \<Rightarrow>
          create_seed (path_join (repo_path f) ''data.txt'')
            (\<lambda>t. [Data_heading, Data_started t]) 146 Exit_data w1)"

text \<open>The \<open>git init\<close> part of \<open>setup_repository\<close>, with its fallback for older versions.\<close>

definition init_repository :: "world \<Rightarrow> (exn + unit) \<times> world" where
  "init_repository w =
     (case run_git_command [''git'', ''init'', ''-b'', ''main''] None True (print_at 100 [] w) of
        (Inr r, w1) \<Rightarrow> (Inr (), print_at 104 [] w1)
      | (Inl e, w1) \<Rightarrow>
          if e = CalledProcessError
          then (case run_git_command [''git'', ''init''] None True w1 of
                  (Inl e2, w2) \<Rightarrow> (Inl e2, w2)
                | (Inr r, w2) \<Rightarrow>
                    (case run_git_command [''git'', ''checkout'', ''-b'', ''main''] None True w2 of
                       (Inr r3, w3) \<Rightarrow> (Inr (), print_at 113 [] w3)
                     | (Inl e3, w3) \<Rightarrow>
                         if e3 = CalledProcessError then (Inr (), print_at 113 [] w3)
                         else (Inl e3, w3)))
          else (Inl e, w1))"

text \<open>\<open>repo_path.mkdir(parents=True, exist_ok=True)\<close> under its \<open>except PermissionError\<close>.\<close>

definition make_directory :: "filler \<Rightarrow> world \<Rightarrow> (exn + unit) \<times> world" where
  "make_directory f w =
     (case fs_fault w (Op_mkdir (repo_path f)) (tick w) of
        None \<Rightarrow> (Inr (), emit (Mkdir (repo_path f)) (step w))
      | Some fl \<Rightarrow>
          if fl = PermissionError then (Inl (SystemExit Exit_mkdir 1), print_at 94 [] (step w))
          else (Inl (Fault fl), step w))"

text \<open>\<open>setup_repository\<close>.\<close>

definition setup_repository :: "filler \<Rightarrow> world \<Rightarrow> (exn + unit) \<times> world" where
  "setup_repository f w =
     (case check_git_installed w of
        (Inl e, w1) \<Rightarrow> (Inl e, w1)
      | (Inr u, w1) \<Rightarrow>
     (case (if repo_path f \<noteq> cwd w1 then make_directory f w1 else (Inr (), w1)) of
        (Inl e, w2) \<Rightarrow> (Inl e, w2)
      | (Inr u, w2) \<Rightarrow>
     (case (if \<not> has_git_dir w2 (repo_path f) then init_repository w2
            else (Inr (), print_at 115 [] w2)) of
        (Inl e, w3) \<Rightarrow> (Inl e, w3)
      | (Inr u, w3) \<Rightarrow>
     (case setup_git_config f w3 of
        (Inl e, w4) \<Rightarrow> (Inl e, w4)
      | (Inr ok, w4) \<Rightarrow>
          if \<not> ok then (Inl (SystemExit Exit_git_config 1), print_at 119 [] w4)
          else create_initial_files f w4))))"

section \<open>Commits\<close>

text \<open>The canned commit messages, their accented letters written without accent.\<close>

definition messages :: "string list" where
  "messages = [''Actualizacion automatica'', ''Progreso diario'', ''Mejoras menores'',
     ''Actualizacion de datos'', ''Commit automatico'', ''Mantenimiento del codigo'',
     ''Actualizacion de documentacion'', ''Refactoring menor'', ''Optimizacion de codigo'',
     ''Correccion de bugs menores'']"

text \<open>The \<open>git add\<close> and \<open>git commit\<close> of \<open>create_commit\<close> under
  \<open>except subprocess.CalledProcessError\<close>.\<close>

definition stage_and_commit :: "rendered \<Rightarrow> string \<Rightarrow> world \<Rightarrow> (exn + bool) \<times> world" where
  "stage_and_commit date_str message w =
     (case (case run_git_command [''git'', ''add'', ''.''] (Some date_str) True w of
              (Inl e, w1) \<Rightarrow> (Inl e, w1)
            | (Inr r, w1) \<Rightarrow>
                run_git_command [''git'', ''commit'', ''-m'', message] (Some date_str) True w1) of
        (Inr r, w2) \<Rightarrow> (Inr True, w2)
      | (Inl e, w2) \<Rightarrow>
          if e = CalledProcessError then (Inr False, print_at 187 [P_time date_str] w2)
          else (Inl e, w2))"

text \<open>\<open>create_commit\<close>: the line goes into \<open>data.txt\<close> first, git runs afterwards.\<close>

definition create_commit :: "filler \<Rightarrow> datetime \<Rightarrow> string option \<Rightarrow> world \<Rightarrow> (exn + bool) \<times> world" where
  "create_commit f date message w =
     (case (case message of
              Some (c # cs) \<Rightarrow> (c # cs, emit (Call_create_commit date) w)
            | _ \<Rightarrow> choice messages (emit (Call_create_commit date) w)) of
        (msg, w1) \<Rightarrow>
     (case fs_fault w1 (Op_open_append (path_join (repo_path f) ''data.txt'')) (tick w1) of
        Some fl \<Rightarrow>
          if is_OSError fl then (Inr False, print_at 172 [] (step w1))
          else (Inl (Fault fl), step w1)
      | None \<Rightarrow>
          (case randint 1000 9999 (step w1) of (tag, w2) \<Rightarrow>
             stage_and_commit (strftime_full date) msg
               (append_file (path_join (repo_path f) ''data.txt'')
                  (Entrada (strftime_full date) tag) w2))))"

text \<open>\<open>should_commit_today\<close>; \<open>and\<close> draws the random number only on a Sunday.\<close>

definition should_commit_today :: "datetime \<Rightarrow> world \<Rightarrow> bool \<times> world" where
  "should_commit_today date w =
     (case now w of (n, w1) \<Rightarrow>
        if dt_less n date then (False, w1)
        else (case (if weekday date = 6
                    then (case random_random w1 of (u, w2) \<Rightarrow> (u < 4 / 10, w2))
                    else (False, w1)) of
                (skip, w2) \<Rightarrow>
                  if skip then (False, w2)
                  else if weekday date < 5
                  then (case random_random w2 of (u, w3) \<Rightarrow> (u < 85 / 100, w3))
                  else (case random_random w2 of (u, w3) \<Rightarrow> (u < 5 / 10, w3))))"

text \<open>\<open>validate_dates\<close>.\<close>

definition validate_dates :: "filler \<Rightarrow> world \<Rightarrow> (exn + bool) \<times> world" where
  "validate_dates f w =
     (if dt_le (end_date f) (start_date f) then (Inr False, print_at 209 [] w)
      else (case now w of (n, w1) \<Rightarrow>
        if dt_less n (start_date f) then (Inr False, print_at 213 [] w1)
        else if delta_days (end_date f) (start_date f) > 400
        then (case input 220 (print_at 219 [P_int (delta_days (end_date f) (start_date f))] w1) of
                (Inl e, w2) \<Rightarrow> (Inl e, w2)
              | (Inr response, w2) \<Rightarrow> (Inr (affirmative (lower response)), w2))
        else (Inr True, w1)))"

text \<open>\<open>intensity_map\<close>.\<close>

definition intensity_map :: "string \<Rightarrow> (int \<times> int) option" where
  "intensity_map = [''low'' \<mapsto> (1, 2), ''medium'' \<mapsto> (1, 4), ''high'' \<mapsto> (2, 6),
     ''very_high'' \<mapsto> (3, 10)]"

text \<open>\<open>daily_commits = random.randint(min_commits, max_commits)\<close>.\<close>

definition daily_commits :: "int \<times> int \<Rightarrow> world \<Rightarrow> int \<times> world" where
  "daily_commits bounds w = randint (fst bounds) (snd bounds) w"

text \<open>\<open>list(range(a, b))\<close>.\<close>

definition range_list :: "int \<Rightarrow> int \<Rightarrow> int list" where
  "range_list a b = [a..b - 1]"

text \<open>The time of one commit on the day \<open>current_date\<close> (the body of the \<open>for\<close> loop up
  to \<open>commit_time\<close>).\<close>

definition commit_time :: "datetime \<Rightarrow> world \<Rightarrow> datetime \<times> world" where
  "commit_time current_date w =
     (case random_random w of (u, w1) \<Rightarrow>
     (case (if u < 7 / 10 then randint 9 18 w1
            else choice (range_list 7 9 @ range_list 19 23) w1) of (random_hour, w2) \<Rightarrow>
     (case randint 0 59 w2 of (random_minute, w3) \<Rightarrow>
     (case randint 0 59 w3 of (random_second, w4) \<Rightarrow>
        (replace_hms current_date random_hour random_minute random_second, w4)))))"

text \<open>One pass of the \<open>for\<close> loop: \<open>continue\<close> leaves both tallies as they are.\<close>

definition one_commit :: "filler \<Rightarrow> datetime \<Rightarrow> int \<times> int \<Rightarrow> world \<Rightarrow> (exn + int \<times> int) \<times> world" where
  "one_commit f current_date tally w =
     (case commit_time current_date w of (t, w1) \<Rightarrow>
     (case now w1 of (n, w2) \<Rightarrow>
        if dt_less n t then (Inr tally, w2)
        else (case create_commit f t None w2 of
                (Inl e, w3) \<Rightarrow> (Inl e, w3)
              | (Inr ok, w3) \<Rightarrow>
                  (Inr (fst tally + 1, (if ok then snd tally + 1 else snd tally)),
                   (if (fst tally + 1) mod 100 = 0
                    then print_at 284 [P_int (if ok then snd tally + 1 else snd tally),
                           P_int (fst tally + 1)] w3
                    else w3)))))"

text \<open>\<open>for i in range(daily_commits)\<close>; the tally is \<open>(total_commits, successful_commits)\<close>.\<close>

fun day_loop :: "filler \<Rightarrow> datetime \<Rightarrow> nat \<Rightarrow> int \<times> int \<Rightarrow> world \<Rightarrow> (exn + int \<times> int) \<times> world" where
  "day_loop f current_date 0 tally w = (Inr tally, w)"
| "day_loop f current_date (Suc k) tally w =
     (case one_commit f current_date tally w of
        (Inl e, w1) \<Rightarrow> (Inl e, w1)
      | (Inr tally1, w1) \<Rightarrow> day_loop f current_date k tally1 w1)"

text \<open>The body of the \<open>while\<close> loop for one calendar day.\<close>

definition one_day :: "filler \<Rightarrow> int \<times> int \<Rightarrow> datetime \<Rightarrow> int \<times> int \<Rightarrow> world
    \<Rightarrow> (exn + int \<times> int) \<times> world" where
  "one_day f bounds current_date tally w =
     (case should_commit_today current_date w of
        (True, w1) \<Rightarrow>
          (case daily_commits bounds w1 of (n, w2) \<Rightarrow> day_loop f current_date (nat n) tally w2)
      | (False, w1) \<Rightarrow> (Inr tally, w1))"

text \<open>\<open>while current_date <= self.end_date\<close>.\<close>

function generate_loop :: "filler \<Rightarrow> int \<times> int \<Rightarrow> datetime \<Rightarrow> int \<times> int \<Rightarrow> world
    \<Rightarrow> (exn + int \<times> int) \<times> world" where
  "generate_loop f bounds current_date tally w =
     (if dt_le current_date (end_date f)
      then (case one_day f bounds current_date tally w of
              (Inl e, w1) \<Rightarrow> (Inl e, w1)
            | (Inr tally1, w1) \<Rightarrow> generate_loop f bounds (plus_days current_date 1) tally1 w1)
      else (Inr tally, w))"
  by pat_completeness auto
termination
  by (relation "measure (\<lambda>(f, bounds, d, tally, w). nat (day (end_date f) - day d + 1))")
    (auto simp: dt_le_def dt_key_def plus_days_def)

declare generate_loop.simps [simp del]

text \<open>\<open>generate_commits\<close>: the tallies are printed, the result is \<open>successful_commits > 0\<close>.\<close>

definition generate_commits :: "filler \<Rightarrow> string \<Rightarrow> world \<Rightarrow> (exn + bool) \<times> world" where
  "generate_commits f intensity w =
     (case validate_dates f w of
        (Inl e, w1) \<Rightarrow> (Inl e, w1)
      | (Inr valid, w1) \<Rightarrow>
          if \<not> valid then (Inr False, w1)
          else (case intensity_map intensity of
                  None \<Rightarrow> (Inr False, print_at 240 [P_str intensity] w1)
                | Some bounds \<Rightarrow>
                    (case generate_loop f bounds (start_date f) (0, 0)
                            (print_at 250 [P_str intensity, P_int (fst bounds), P_int (snd bounds)]
                              (print_at 249 [P_time (strftime_date (start_date f)),
                                 P_time (strftime_date (end_date f))] w1)) of
                       (Inl e, w2) \<Rightarrow> (Inl e, w2)
                     | (Inr (total_commits, successful_commits), w2) \<Rightarrow>
                         (Inr (successful_commits > 0),
                          print_at 294 [P_str (repo_path f)]
                            ((if total_commits > successful_commits
                              then print_at 293 [P_int (total_commits - successful_commits)]
                              else id)
                               (print_at 291 [P_int successful_commits]
                                 (print_at 290 [P_int total_commits]
                                   (print_at 289 [] w2))))))))"

section \<open>Remote and push\<close>

text \<open>The \<open>try\<close> block of \<open>setup_remote_repository\<close>.\<close>

definition setup_remote_try :: "string \<Rightarrow> world \<Rightarrow> (exn + bool) \<times> world" where
  "setup_remote_try repo_url w =
     (case run_git_command [''git'', ''remote'', ''get-url'', ''origin''] None False w of
        (Inl e, w1) \<Rightarrow> (Inl e, w1)
      | (Inr (rc, out), w1) \<Rightarrow>
          if rc = 0
          then (if strip out = repo_url then (Inr True, print_at 318 [] w1)
                else (case input 322 (print_at 321 [P_str (strip out)] w1) of
                        (Inl e, w2) \<Rightarrow> (Inl e, w2)
                      | (Inr response, w2) \<Rightarrow>
                          if affirmative (lower response)
                          then (case run_git_command
                                       [''git'', ''remote'', ''set-url'', ''origin'', repo_url] None True w2 of
                                  (Inl e, w3) \<Rightarrow> (Inl e, w3)
                                | (Inr r, w3) \<Rightarrow> (Inr True, print_at 325 [P_str repo_url] w3))
                          else (Inr False, w2)))
          else (case run_git_command [''git'', ''remote'', ''add'', ''origin'', repo_url] None True w1 of
                  (Inl e, w2) \<Rightarrow> (Inl e, w2)
                | (Inr r, w2) \<Rightarrow> (Inr True, print_at 331 [P_str repo_url] w2)))"

text \<open>\<open>setup_remote_repository\<close>.\<close>

definition setup_remote_repository :: "string \<Rightarrow> world \<Rightarrow> (exn + bool) \<times> world" where
  "setup_remote_repository repo_url w =
     (if repo_url = [] then (Inr False, print_at 301 [] w)
      else (case setup_remote_try repo_url
                   (if \<not> (starts_with repo_url ''https://github.com/'' \<or>
                           starts_with repo_url ''git@github.com:'' \<or>
                           starts_with repo_url ''https://gitlab.com/'' \<or>
                           starts_with repo_url ''git@gitlab.com:'')
                    then print_at 309 [] w else w) of
              (Inl e, w1) \<Rightarrow>
                if e = CalledProcessError then (Inr False, print_at 335 [] w1) else (Inl e, w1)
            | (Inr b, w1) \<Rightarrow> (Inr b, w1)))"

text \<open>The outer \<open>try\<close> block of \<open>push_to_github\<close>.\<close>

definition push_try :: "world \<Rightarrow> (exn + bool) \<times> world" where
  "push_try w =
     (case run_git_command [''git'', ''remote'', ''get-url'', ''origin''] None False (print_at 341 [] w) of
        (Inl e, w1) \<Rightarrow> (Inl e, w1)
      | (Inr (rc, out), w1) \<Rightarrow>
          if rc \<noteq> 0 then (Inr False, print_at 346 [] w1)
          else (case run_git_command [''git'', ''push'', ''-u'', ''origin'', ''main''] None True
                       (print_at 349 [] w1) of
                  (Inr r, w2) \<Rightarrow> (Inr True, print_at 354 [] w2)
                | (Inl e, w2) \<Rightarrow>
                    if e = CalledProcessError
                    then (case input 359 (print_at 358 [] w2) of
                            (Inl e3, w3) \<Rightarrow> (Inl e3, w3)
                          | (Inr response, w3) \<Rightarrow>
                              if affirmative (lower response)
                              then (case run_git_command
                                           [''git'', ''push'', ''--force'', ''origin'', ''main''] None True w3 of
                                      (Inl e4, w4) \<Rightarrow> (Inl e4, w4)
                                    | (Inr r, w4) \<Rightarrow> (Inr True, print_at 362 [] w4))
                              else (Inr False, print_at 365 [] w3))
                    else (Inl e, w2)))"

text \<open>\<open>push_to_github\<close>.\<close>

definition push_to_github :: "world \<Rightarrow> (exn + bool) \<times> world" where
  "push_to_github w =
     (case push_try w of
        (Inl e, w1) \<Rightarrow>
          if e = CalledProcessError then (Inr False, print_at 370 [] (print_at 369 [] w1))
          else (Inl e, w1)
      | (Inr b, w1) \<Rightarrow> (Inr b, w1))"

text \<open>\<open>cleanup_on_error\<close>: back to the directory the program started in; a failure of
  \<open>os.chdir\<close> is swallowed.\<close>

definition cleanup_on_error :: "filler \<Rightarrow> world \<Rightarrow> world" where
  "cleanup_on_error f w = w\<lparr>cwd := original_cwd f\<rparr>"

section \<open>The command line\<close>

text \<open>\<open>parse_date\<close>: a date at midnight, or exit code 1.\<close>

definition parse_date :: "string \<Rightarrow> world \<Rightarrow> (exn + datetime) \<times> world" where
  "parse_date date_string w =
     (case strptime_ymd w date_string of
        Some d \<Rightarrow> (Inr \<lparr>day = d, hour = 0, minute = 0, second = 0, microsecond = 0\<rparr>, w)
      | None \<Rightarrow> (Inl (SystemExit Exit_bad_date 1), print_at 389 [P_str date_string] w))"

text \<open>The values \<open>parser.parse_args()\<close> returns; argparse has applied the defaults and
  has rejected an intensity outside its four choices.\<close>

record args =
  arg_start_date :: string
  arg_intensity :: string
  arg_repo_url :: "string option"
  arg_local_path :: string
  arg_author_name :: "string option"
  arg_author_email :: "string option"
  arg_dry_run :: bool

text \<open>How the process ends: \<open>main\<close> returns (exit code 0), \<open>sys.exit(c)\<close> at a site, or
  an exception no handler caught leaves \<open>main\<close> (traceback, non-zero status).\<close>

datatype ending = Returns | Exits exit_site int | Uncaught fault

text \<open>An exception that leaves \<open>main\<close> outside its \<open>try\<close>.\<close>

fun escapes :: "exn \<Rightarrow> ending" where
  "escapes (SystemExit site c) = Exits site c"
| "escapes CalledProcessError = Uncaught Exception_other"
| "escapes (Fault fl) = Uncaught fl"

text \<open>The part of the \<open>try\<close> block of \<open>main\<close> after a successful generation.\<close>

definition after_generation :: "args \<Rightarrow> filler \<Rightarrow> world \<Rightarrow> (exn + unit) \<times> world" where
  "after_generation a f w =
     (case arg_repo_url a of
        Some (c # cs) \<Rightarrow>
          (case setup_remote_repository (c # cs) (print_at 476 [] w) of
             (Inl e, w1) \<Rightarrow> (Inl e, w1)
           | (Inr ok, w1) \<Rightarrow>
               if ok
               then (case input 479 w1 of
                       (Inl e, w2) \<Rightarrow> (Inl e, w2)
                     | (Inr response, w2) \<Rightarrow>
                         if affirmative (lower response)
                         then (case push_to_github w2 of
                                 (Inl e, w3) \<Rightarrow> (Inl e, w3)
                               | (Inr success, w3) \<Rightarrow>
                                   (Inr (), if success then print_at 484 [] (print_at 483 [] w3) else w3))
                         else (Inr (), print_at 488 [] (print_at 487 [P_str (arg_local_path a)]
                                 (print_at 486 [] w2))))
               else (Inr (), w1))
      | _ \<Rightarrow> (Inr (), print_at 490 [P_str (arg_local_path a)] w))"

text \<open>The \<open>try\<close> block of \<open>main\<close>, from \<open>setup_repository\<close> on.\<close>

definition main_try :: "args \<Rightarrow> filler \<Rightarrow> world \<Rightarrow> (exn + unit) \<times> world" where
  "main_try a f w =
     (case setup_repository f (print_at 463 [] w) of
        (Inl e, w1) \<Rightarrow> (Inl e, w1)
      | (Inr u, w1) \<Rightarrow>
          (case generate_commits f (arg_intensity a) (print_at 467 [] w1) of
             (Inl e, w2) \<Rightarrow> (Inl e, w2)
           | (Inr success, w2) \<Rightarrow>
               if \<not> success then (Inr (), print_at 471 [] w2)
               else after_generation a f w2))"

text \<open>The two \<open>except\<close> clauses of \<open>main\<close>; \<open>SystemExit\<close> passes both.\<close>

definition main_guarded :: "args \<Rightarrow> datetime \<Rightarrow> world \<Rightarrow> ending \<times> world" where
  "main_guarded a start w =
     (case init (arg_local_path a) (Some start) (arg_author_name a) (arg_author_email a) w of
        (f, w1) \<Rightarrow>
     (case main_try a f w1 of
        (Inr u, w2) \<Rightarrow> (Returns, w2)
      | (Inl (SystemExit site c), w2) \<Rightarrow> (Exits site c, w2)
      | (Inl CalledProcessError, w2) \<Rightarrow>
          (Exits Exit_unexpected 1, cleanup_on_error f (print_at 507 [] w2))
      | (Inl (Fault fl), w2) \<Rightarrow>
          if fl = KeyboardInterrupt then (Returns, cleanup_on_error f (print_at 503 [] w2))
          else (Exits Exit_unexpected 1, cleanup_on_error f (print_at 507 [] w2))))"

text \<open>\<open>main\<close>. The dry run returns before anything is set up; the confirmation
  prompt stands before the \<open>try\<close>.\<close>

definition main :: "args \<Rightarrow> world \<Rightarrow> ending \<times> world" where
  "main a w =
     (case parse_date (arg_start_date a) w of
        (Inl e, w1) \<Rightarrow> (escapes e, w1)
      | (Inr start, w1) \<Rightarrow>
     (case now (print_at 432 [P_time (strftime_date start)] w1) of (n, w2) \<Rightarrow>
     (case print_at 435 [P_str (arg_local_path a)]
             (print_at 434 [P_str (arg_intensity a)]
               (print_at 433 [P_time (strftime_date n)] w2)) of w3 \<Rightarrow>
        if arg_dry_run a
        then (case now (print_at 441 [] w3) of (n2, w4) \<Rightarrow>
                (Returns, print_at 443 [P_int (delta_days n2 start)] w4))
        else (case input 447 w3 of
                (Inl e, w4) \<Rightarrow> (escapes e, w4)
              | (Inr response, w4) \<Rightarrow>
                  if \<not> affirmative (lower response) then (Returns, print_at 449 [] w4)
                  else main_guarded a start w4))))"

section \<open>Commit calls and the clock\<close>

text \<open>Every entry into \<open>create_commit\<close> in a trace (newest first) comes directly after
  a reading of the clock, and its timestamp is not after that reading.\<close>

fun commits_guarded :: "event list \<Rightarrow> bool" where
  "commits_guarded [] = True"
| "commits_guarded (Call_create_commit t # Now n # es) = (dt_le t n \<and> commits_guarded es)"
| "commits_guarded (Call_create_commit t # es) = False"
| "commits_guarded (e # es) = commits_guarded es"

section \<open>Effects on the repository\<close>

text \<open>The events that touch the file system or run git.\<close>

fun mutation :: "event \<Rightarrow> bool" where
  "mutation (Run c env out) = True"
| "mutation (Mkdir p) = True"
| "mutation (Write_file p ls) = True"
| "mutation (Append_file p l) = True"
| "mutation e = False"





section \<open>Exit codes\<close>




section \<open>Sample runs\<close>

text \<open>Concrete surroundings on which the program is run below. Day 1 is a Monday.\<close>

definition moment :: "int \<Rightarrow> int \<Rightarrow> int \<Rightarrow> datetime" where
  "moment d h m = \<lparr>day = d, hour = h, minute = m, second = 0, microsecond = 0\<rparr>"

text \<open>Tuesday 23:30 on the clock, every raw random number 1, git and the file system
  always succeeding, the user answering \<open>y\<close>, an existing repository without seed files.\<close>

definition quiet :: world where
  "quiet = \<lparr>tick = 0, clock = (\<lambda>n. moment 2 23 30), entropy = (\<lambda>n. 1),
     git_tool = (\<lambda>c n. Completed 0 ''ok''), fs_fault = (\<lambda>p n. None), stdin = (\<lambda>n. Inr ''y''),
     strptime_ymd = (\<lambda>s. Some 1), resolve = (\<lambda>s. s), cwd = ''.'', has_git_dir = (\<lambda>p. True),
     files = Map.empty, trace = []\<rparr>"


text \<open>A filler from Monday 23:30 to Tuesday 23:30: the start is the end minus one day.\<close>

definition late :: filler where
  "late = \<lparr>repo_path = ''.'', start_date = moment 1 23 30, end_date = moment 2 23 30,
     original_cwd = ''.'', author_name = None, author_email = None\<rparr>"

text \<open>Tuesday 06:00 on the clock, and a filler from Monday 00:00 to that moment.\<close>

definition morning :: world where
  "morning = quiet\<lparr>clock := (\<lambda>n. moment 2 6 0)\<rparr>"

definition early :: filler where
  "early = \<lparr>repo_path = ''.'', start_date = moment 1 0 0, end_date = moment 2 6 0,
     original_cwd = ''.'', author_name = None, author_email = None\<rparr>"

text \<open>As \<open>quiet\<close>, but every \<open>git commit\<close> ends with return code 1.\<close>

definition rejecting :: world where
  "rejecting = quiet\<lparr>git_tool := (\<lambda>c n. if take 2 c = [''git'', ''commit''] then Completed 1 [] else Completed 0 ''ok'')\<rparr>"

text \<open>Command lines: a dry run from day 1.\<close>

definition dry :: args where
  "dry = \<lparr>arg_start_date = ''0001-01-01'', arg_intensity = ''low'', arg_repo_url = None,
     arg_local_path = ''.'', arg_author_name = None, arg_author_email = None,
     arg_dry_run = True\<rparr>"






section \<open>Random draws\<close>

lemma randint_bounds: "a \<le> b \<Longrightarrow> a \<le> fst (randint a b w) \<and> fst (randint a b w) \<le> b"
proof -
  assume ab: "a \<le> b"
  then have pos: "0 < nat (b - a + 1)" by simp
  have "entropy w (tick w) mod nat (b - a + 1) < nat (b - a + 1)"
    using pos by (rule mod_less_divisor)
  then have "int (entropy w (tick w) mod nat (b - a + 1)) < int (nat (b - a + 1))"
    by (simp only: of_nat_less_iff)
  moreover have "int (nat (b - a + 1)) = b - a + 1" using ab by simp
  ultimately have "int (entropy w (tick w) mod nat (b - a + 1)) \<le> b - a" by linarith
  then show ?thesis by (simp add: randint_def)
qed


lemma intensity_map_ordered: "intensity_map name = Some bounds \<Longrightarrow> fst bounds \<le> snd bounds"
  by (auto simp: intensity_map_def split: if_splits)


text \<open>
  C5. The four tiers are low = (1, 2), medium = (1, 4), high = (2, 6) and
  very_high = (3, 10), and the number of commits drawn for an active day lies within
  the bounds of the tier in use, both ends included.
\<close>

theorem daily_commits_within_tier:
  "intensity_map ''low'' = Some (1, 2) \<and> intensity_map ''medium'' = Some (1, 4) \<and>
   intensity_map ''high'' = Some (2, 6) \<and> intensity_map ''very_high'' = Some (3, 10) \<and>
   (\<forall>name bounds. intensity_map name = Some bounds \<longrightarrow>
      fst bounds \<le> fst (daily_commits bounds w) \<and> fst (daily_commits bounds w) \<le> snd bounds)"
proof -
  have tiers: "intensity_map ''low'' = Some (1, 2) \<and> intensity_map ''medium'' = Some (1, 4) \<and>
      intensity_map ''high'' = Some (2, 6) \<and> intensity_map ''very_high'' = Some (3, 10)"
    by (simp add: intensity_map_def)
  have "fst bounds \<le> fst (daily_commits bounds w) \<and> fst (daily_commits bounds w) \<le> snd bounds"
    if "intensity_map name = Some bounds" for name bounds
    using randint_bounds [OF intensity_map_ordered [OF that]] by (simp add: daily_commits_def)
  with tiers show ?thesis by blast
qed

theorem daily_commits_within_tier_witness:
  "intensity_map ''high'' = Some (2, 6) \<and> 2 \<le> fst (daily_commits (2, 6) quiet) \<and>
   fst (daily_commits (2, 6) quiet) \<le> 6 \<and> fst (daily_commits (2, 6) quiet) = 3"
proof -
  have drawn: "fst (daily_commits (2, 6) quiet) = 3"
    by (simp add: daily_commits_def randint_def quiet_def)
  from daily_commits_within_tier [of quiet] have "intensity_map ''high'' = Some (2, 6)"
    and "\<forall>name bounds. intensity_map name = Some bounds \<longrightarrow>
      fst bounds \<le> fst (daily_commits bounds quiet) \<and> fst (daily_commits bounds quiet) \<le> snd bounds"
    by blast+
  then have "intensity_map ''high'' = Some (2, 6) \<and> 2 \<le> fst (daily_commits (2, 6) quiet) \<and>
      fst (daily_commits (2, 6) quiet) \<le> 6"
    by fastforce
  with drawn show ?thesis by blast
qed


lemma commit_time_quiet:
  "commit_time (moment 1 0 0) quiet =
     (\<lparr>day = 1, hour = 10, minute = 1, second = 1, microsecond = 0\<rparr>, quiet\<lparr>tick := 4\<rparr>)"
  by (simp add: commit_time_def random_random_def randint_def choice_def step_def quiet_def
      moment_def replace_hms_def)



section \<open>The scheduler\<close>


lemma not_less_le: "\<not> dt_less n t \<Longrightarrow> dt_le t n"
  by (simp add: dt_less_def dt_le_def not_less)

lemma trace_commit_time: "trace (snd (commit_time d w)) = trace w"
  by (simp add: commit_time_def random_random_def randint_def choice_def step_def
      split: prod.splits)

lemma run_git_command_guarded:
  "commits_guarded (trace w) \<Longrightarrow> commits_guarded (trace (snd (run_git_command c env chk w)))"
  by (simp add: run_git_command_def subprocess_run_def emit_def step_def print_at_def
      split: outcome.splits)

lemma stage_and_commit_guarded:
  "commits_guarded (trace w) \<Longrightarrow> commits_guarded (trace (snd (stage_and_commit ds msg w)))"
proof -
  assume g: "commits_guarded (trace w)"
  obtain r1 w1 where a: "run_git_command [''git'', ''add'', ''.''] (Some ds) True w = (r1, w1)"
    by (cases "run_git_command [''git'', ''add'', ''.''] (Some ds) True w")
  have g1: "commits_guarded (trace w1)" using run_git_command_guarded [OF g, of _ "Some ds" True] a
    by (metis snd_conv)
  obtain r2 w2 where b: "run_git_command [''git'', ''commit'', ''-m'', msg] (Some ds) True w1 = (r2, w2)"
    by (cases "run_git_command [''git'', ''commit'', ''-m'', msg] (Some ds) True w1")
  have g2: "commits_guarded (trace w2)" using run_git_command_guarded [OF g1, of _ "Some ds" True] b
    by (metis snd_conv)
  show ?thesis using a b g1 g2
    by (auto simp: stage_and_commit_def print_at_def emit_def split: sum.splits)
qed

lemma create_commit_guarded:
  assumes "commits_guarded (trace w)" and "trace w = Now n # es" and "dt_le t n"
  shows "commits_guarded (trace (snd (create_commit f t msg w)))"
proof -
  define w0 where "w0 = emit (Call_create_commit t) w"
  have g0: "commits_guarded (trace w0)" using assms by (simp add: w0_def emit_def)
  obtain m w1 where c: "(case msg of Some (c # cs) \<Rightarrow> (c # cs, w0) | _ \<Rightarrow> choice messages w0) = (m, w1)"
    by (cases "case msg of Some (c # cs) \<Rightarrow> (c # cs, w0) | _ \<Rightarrow> choice messages w0")
  have g1: "commits_guarded (trace w1)" using c g0
    by (auto simp: choice_def step_def split: option.splits list.splits)
  have "commits_guarded (trace (snd (stage_and_commit ds m (append_file p l (snd (randint 1000 9999 (step w1)))))))"
    for ds p l
    by (rule stage_and_commit_guarded) (simp add: append_file_def emit_def randint_def step_def g1)
  then show ?thesis using c g1 unfolding create_commit_def w0_def [symmetric]
    by (auto simp: print_at_def emit_def step_def split: option.splits prod.splits)
qed

lemma one_commit_guarded:
  "commits_guarded (trace w) \<Longrightarrow> commits_guarded (trace (snd (one_commit f d tally w)))"
proof -
  assume g: "commits_guarded (trace w)"
  obtain t w1 where ct: "commit_time d w = (t, w1)" by (cases "commit_time d w")
  have tr1: "trace w1 = trace w" using trace_commit_time [of d w] ct by simp
  obtain n w2 where nw: "now w1 = (n, w2)" by (cases "now w1")
  have tr2: "trace w2 = Now n # trace w" using nw tr1 by (auto simp: now_def emit_def step_def)
  have g2: "commits_guarded (trace w2)" using tr2 g by simp
  show ?thesis
  proof (cases "dt_less n t")
    case True
    then show ?thesis using ct nw g2 by (simp add: one_commit_def)
  next
    case False
    have gc: "commits_guarded (trace (snd (create_commit f t None w2)))"
      using create_commit_guarded [OF g2 tr2 not_less_le [OF False]] .
    obtain r w3 where cc: "create_commit f t None w2 = (r, w3)" by (cases "create_commit f t None w2")
    show ?thesis using ct nw False cc gc
      by (auto simp: one_commit_def print_at_def emit_def split: sum.splits)
  qed
qed

lemma day_loop_guarded:
  "commits_guarded (trace w) \<Longrightarrow> commits_guarded (trace (snd (day_loop f d k tally w)))"
proof (induction k arbitrary: tally w)
  case 0
  then show ?case by simp
next
  case (Suc k)
  obtain r w1 where oc: "one_commit f d tally w = (r, w1)" by (cases "one_commit f d tally w")
  have g1: "commits_guarded (trace w1)" using one_commit_guarded [OF Suc.prems, of f d tally] oc by simp
  show ?case using oc g1 Suc.IH [OF g1] by (cases r) auto
qed

lemma should_commit_today_guarded:
  "commits_guarded (trace w) \<Longrightarrow> commits_guarded (trace (snd (should_commit_today d w)))"
  by (simp add: should_commit_today_def now_def emit_def step_def random_random_def)

lemma one_day_guarded:
  "commits_guarded (trace w) \<Longrightarrow> commits_guarded (trace (snd (one_day f bounds d tally w)))"
proof -
  assume g: "commits_guarded (trace w)"
  obtain b w1 where s: "should_commit_today d w = (b, w1)" by (cases "should_commit_today d w")
  have g1: "commits_guarded (trace w1)" using should_commit_today_guarded [OF g, of d] s by simp
  have g2: "commits_guarded (trace (snd (daily_commits bounds w1)))"
    using g1 by (simp add: daily_commits_def randint_def step_def)
  obtain n w2 where dc: "daily_commits bounds w1 = (n, w2)" by (cases "daily_commits bounds w1")
  have "commits_guarded (trace (snd (day_loop f d (nat n) tally w2)))"
    using day_loop_guarded [OF g2, of f d "nat n" tally] dc by simp
  then show ?thesis using s g1 dc
    by (cases b) (simp_all add: one_day_def)
qed

lemma generate_loop_guarded:
  "commits_guarded (trace w) \<Longrightarrow> commits_guarded (trace (snd (generate_loop f bounds d tally w)))"
proof (induction f bounds d tally w rule: generate_loop.induct)
  case (1 f bounds d tally w)
  show ?case
  proof (cases "dt_le d (end_date f)")
    case False
    then show ?thesis using "1.prems" by (subst generate_loop.simps) simp
  next
    case True
    obtain r w1 where od: "one_day f bounds d tally w = (r, w1)" by (cases "one_day f bounds d tally w")
    have g1: "commits_guarded (trace w1)" using one_day_guarded [OF "1.prems", of f bounds d tally] od by simp
    show ?thesis
    proof (cases r)
      case (Inl e)
      then show ?thesis using True od g1 by (subst generate_loop.simps) simp
    next
      case (Inr tally1)
      then show ?thesis using True od "1.IH" [OF True od [symmetric, unfolded Inr] _ g1]
        by (subst generate_loop.simps) simp
    qed
  qed
qed


lemma validate_dates_guarded:
  "commits_guarded (trace w) \<Longrightarrow> commits_guarded (trace (snd (validate_dates f w)))"
  by (simp add: validate_dates_def now_def emit_def step_def print_at_def input_def
      split: sum.splits)

text \<open>
  C1. Whatever the date range and the intensity, \<open>generate_commits\<close> enters
  \<open>create_commit\<close> only directly after reading the clock, and with a timestamp that
  is not after that reading: if the trace was guarded before the run, it is guarded
  after it.
\<close>

theorem no_commit_after_now:
  "commits_guarded (trace w) \<Longrightarrow>
     commits_guarded (trace (snd (generate_commits f intensity w)))"
proof -
  assume g: "commits_guarded (trace w)"
  obtain r w1 where v: "validate_dates f w = (r, w1)" by (cases "validate_dates f w")
  have g1: "commits_guarded (trace w1)" using validate_dates_guarded [OF g, of f] v by simp
  have loop: "commits_guarded (trace (snd (generate_loop f bounds (start_date f) (0, 0)
      (print_at 250 a (print_at 249 b w1)))))" for bounds a b
    by (rule generate_loop_guarded) (simp add: print_at_def emit_def g1)
  show ?thesis
  proof (cases r)
    case (Inl e)
    then show ?thesis using v g1 by (simp add: generate_commits_def)
  next
    case (Inr valid)
    show ?thesis
    proof (cases "intensity_map intensity")
      case None
      then show ?thesis using v Inr g1 by (simp add: generate_commits_def print_at_def emit_def)
    next
      case (Some bounds)
      obtain r2 w2 where gl: "generate_loop f bounds (start_date f) (0, 0)
          (print_at 250 [P_str intensity, P_int (fst bounds), P_int (snd bounds)]
            (print_at 249 [P_time (strftime_date (start_date f)),
               P_time (strftime_date (end_date f))] w1)) = (r2, w2)"
        by (cases "generate_loop f bounds (start_date f) (0, 0)
          (print_at 250 [P_str intensity, P_int (fst bounds), P_int (snd bounds)]
            (print_at 249 [P_time (strftime_date (start_date f)),
               P_time (strftime_date (end_date f))] w1))")
      have g2: "commits_guarded (trace w2)" using loop [of bounds] gl by (metis snd_conv)
      show ?thesis using v Inr Some gl g1 g2
        by (auto simp: generate_commits_def print_at_def emit_def split: sum.splits)
    qed
  qed
qed

lemma day_loop_unfold:
  "0 < k \<Longrightarrow> day_loop f d k tally w =
     (case one_commit f d tally w of
        (Inl e, w1) \<Rightarrow> (Inl e, w1)
      | (Inr tally1, w1) \<Rightarrow> day_loop f d (k - 1) tally1 w1)"
  by (cases k) (auto split: prod.splits sum.splits)

lemmas run_defs = commit_time_def random_random_def randint_def step_def moment_def replace_hms_def
  now_def emit_def choice_def create_commit_def stage_and_commit_def run_git_command_def
  subprocess_run_def print_at_def append_file_def path_join_def strftime_full_def dt_less_def
  dt_le_def dt_key_def messages_def is_OSError_def one_commit_def one_day_def
  should_commit_today_def daily_commits_def weekday_def plus_days_def validate_dates_def
  generate_commits_def intensity_map_def delta_days_def micros_def strftime_date_def
  day_loop_unfold generate_loop.simps

lemma one_commit_tally:
  assumes "one_commit f d tally w = (Inr tally', w')"
  shows "fst tally' \<le> fst tally + 1 \<and> snd tally \<le> snd tally' \<and>
     snd tally' - snd tally \<le> fst tally' - fst tally"
proof -
  obtain t w1 where ct: "commit_time d w = (t, w1)" by (cases "commit_time d w")
  obtain n w2 where nw: "now w1 = (n, w2)" by (cases "now w1")
  obtain r w3 where cc: "create_commit f t None w2 = (r, w3)" by (cases "create_commit f t None w2")
  show ?thesis using assms ct nw cc
    by (cases r; cases "dt_less n t") (auto simp: one_commit_def split: if_splits)
qed

lemma day_loop_tally:
  "day_loop f d k tally w = (Inr tally', w') \<Longrightarrow>
     fst tally' \<le> fst tally + int k \<and> snd tally \<le> snd tally' \<and>
     snd tally' - snd tally \<le> fst tally' - fst tally"
proof (induction k arbitrary: tally w)
  case 0
  then show ?case by simp
next
  case (Suc k)
  obtain r w1 where oc: "one_commit f d tally w = (r, w1)" by (cases "one_commit f d tally w")
  show ?case
  proof (cases r)
    case (Inl e)
    then show ?thesis using Suc.prems oc by simp
  next
    case (Inr tally1)
    have step: "fst tally1 \<le> fst tally + 1 \<and> snd tally \<le> snd tally1 \<and>
        snd tally1 - snd tally \<le> fst tally1 - fst tally"
      using one_commit_tally [of f d tally w tally1 w1] oc Inr by simp
    have rest: "day_loop f d k tally1 w1 = (Inr tally', w')"
      using Suc.prems oc Inr by simp
    from Suc.IH [OF rest] step show ?thesis by simp
  qed
qed

lemma one_day_tally:
  assumes "one_day f bounds d tally w = (Inr tally', w')"
    and "fst bounds \<le> snd bounds" and "0 \<le> snd bounds"
  shows "fst tally' \<le> fst tally + snd bounds \<and> snd tally \<le> snd tally' \<and>
     snd tally' - snd tally \<le> fst tally' - fst tally"
proof -
  obtain b w1 where s: "should_commit_today d w = (b, w1)" by (cases "should_commit_today d w")
  obtain n w2 where dc: "daily_commits bounds w1 = (n, w2)" by (cases "daily_commits bounds w1")
  have "n \<le> snd bounds"
    using randint_bounds [OF assms(2), of w1] dc by (simp add: daily_commits_def)
  then have nb: "int (nat n) \<le> snd bounds" using assms(3) by simp
  show ?thesis
  proof (cases b)
    case True
    then have "day_loop f d (nat n) tally w2 = (Inr tally', w')"
      using assms(1) s dc by (simp add: one_day_def)
    from day_loop_tally [OF this] nb show ?thesis by simp
  next
    case False
    then show ?thesis using assms(1,3) s by (simp add: one_day_def)
  qed
qed

lemma generate_loop_tally:
  "generate_loop f bounds d tally w = (Inr tally', w') \<Longrightarrow>
   fst bounds \<le> snd bounds \<Longrightarrow> 0 \<le> snd bounds \<Longrightarrow>
     fst tally' \<le> fst tally + snd bounds * max 0 (day (end_date f) - day d + 1) \<and>
     snd tally \<le> snd tally' \<and> snd tally' - snd tally \<le> fst tally' - fst tally"
proof (induction f bounds d tally w rule: generate_loop.induct)
  case (1 f bounds d tally w)
  show ?case
  proof (cases "dt_le d (end_date f)")
    case False
    then have "tally' = tally" using "1.prems"(1) by (subst (asm) generate_loop.simps) simp
    then show ?thesis using "1.prems"(3) by simp
  next
    case True
    then have days: "day d \<le> day (end_date f)" by (auto simp: dt_le_def dt_key_def)
    obtain r w1 where od: "one_day f bounds d tally w = (r, w1)"
      by (cases "one_day f bounds d tally w")
    show ?thesis
    proof (cases r)
      case (Inl e)
      then show ?thesis using True od "1.prems"(1) by (subst (asm) generate_loop.simps) simp
    next
      case (Inr tally1)
      have rest: "generate_loop f bounds (plus_days d 1) tally1 w1 = (Inr tally', w')"
        using True od Inr "1.prems"(1) by (subst (asm) generate_loop.simps) simp
      have ih: "fst tally' \<le> fst tally1 + snd bounds * max 0 (day (end_date f) - day (plus_days d 1) + 1) \<and>
          snd tally1 \<le> snd tally' \<and> snd tally' - snd tally1 \<le> fst tally' - fst tally1"
        using "1.IH" [OF True od [symmetric, unfolded Inr] _ rest "1.prems"(2,3)] by simp
      have today: "fst tally1 \<le> fst tally + snd bounds \<and> snd tally \<le> snd tally1 \<and>
          snd tally1 - snd tally \<le> fst tally1 - fst tally"
        using one_day_tally [OF od [unfolded Inr] "1.prems"(2,3)] .
      have cnt: "max 0 (day (end_date f) - day (plus_days d 1) + 1) = day (end_date f) - day d"
        using days by (simp add: plus_days_def)
      have cnt2: "max 0 (day (end_date f) - day d + 1) = day (end_date f) - day d + 1"
        using days by simp
      have "fst tally' \<le> fst tally + snd bounds + snd bounds * (day (end_date f) - day d)"
        using ih today cnt by simp
      then have "fst tally' \<le> fst tally + snd bounds * (day (end_date f) - day d + 1)"
        by (simp add: algebra_simps)
      then show ?thesis using ih today cnt2 by simp
    qed
  qed
qed

text \<open>
  C4, as amended. When the start date is the end date minus exactly one day and the
  intensity is low, the loop walks two calendar days (the start day and the end day)
  with at most 2 commits each: at most 4 commits are counted as attempted. The bound 2
  of the claim does not hold, as the run \<open>adjacent_days_low_counterexample\<close> shows.
\<close>

theorem adjacent_days_low_total:
  "start_date f = plus_days (end_date f) (- 1) \<Longrightarrow> intensity_map ''low'' = Some bounds \<Longrightarrow>
   fst (generate_loop f bounds (start_date f) (0, 0) w) = Inr (total_commits, successful_commits) \<Longrightarrow>
     total_commits \<le> 4"
proof -
  assume adj: "start_date f = plus_days (end_date f) (- 1)"
    and low: "intensity_map ''low'' = Some bounds"
    and run: "fst (generate_loop f bounds (start_date f) (0, 0) w) = Inr (total_commits, successful_commits)"
  have b: "bounds = (1, 2)" using low by (simp add: intensity_map_def)
  have days: "day (end_date f) - day (start_date f) + 1 = 2"
    using adj by (simp add: plus_days_def)
  have "generate_loop f bounds (start_date f) (0, 0) w =
      (Inr (total_commits, successful_commits), snd (generate_loop f bounds (start_date f) (0, 0) w))"
    using run by (simp add: prod_eq_iff)
  from generate_loop_tally [OF this] b days show ?thesis by simp
qed

lemma late_loop: "fst (generate_loop late (1, 2) (start_date late) (0, 0) quiet) = Inr (4, 4)"
  by (simp add: run_defs quiet_def late_def)

theorem adjacent_days_low_total_witness:
  "start_date late = plus_days (end_date late) (- 1) \<and> intensity_map ''low'' = Some (1, 2) \<and>
   fst (generate_loop late (1, 2) (start_date late) (0, 0) quiet) = Inr (4, 4) \<and> (4::int) \<le> 4"
proof -
  have adj: "start_date late = plus_days (end_date late) (- 1)"
    by (simp add: late_def plus_days_def moment_def)
  have low: "intensity_map ''low'' = Some (1, 2)" by (simp add: intensity_map_def)
  from adjacent_days_low_total [OF adj low late_loop] adj low late_loop show ?thesis by simp
qed

text \<open>A filler whose start is its end minus one day, intensity low, and 4 attempted commits;
  line 290 prints \<open>total_commits\<close>.\<close>

theorem adjacent_days_low_counterexample:
  "start_date late = plus_days (end_date late) (- 1) \<and> intensity_map ''low'' = Some (1, 2) \<and>
   fst (generate_loop late (1, 2) (start_date late) (0, 0) quiet) = Inr (4, 4) \<and>
   Print 290 [P_int 4] \<in> set (trace (snd (generate_commits late ''low'' quiet))) \<and> \<not> (4::int) \<le> 2"
  by (simp add: run_defs quiet_def late_def)


text \<open>
  C2, as amended. A commit whose chosen time is after the clock reading is skipped:
  \<open>create_commit\<close> is not called, nothing but the clock reading is added to the trace,
  no file changes, and neither tally moves (\<open>continue\<close> comes before
  \<open>total_commits += 1\<close>). A commit whose time is not in the future is counted as
  attempted, and as successful when \<open>create_commit\<close> returns \<open>True\<close>.
\<close>

theorem future_commit_skipped_uncounted:
  "commit_time current_date w = (t, w1) \<Longrightarrow> now w1 = (n, w2) \<Longrightarrow>
     (dt_less n t \<longrightarrow>
        one_commit f current_date tally w = (Inr tally, w2) \<and> trace w2 = Now n # trace w \<and>
        files w2 = files w) \<and>
     (\<not> dt_less n t \<longrightarrow>
        (\<forall>ok w3. create_commit f t None w2 = (Inr ok, w3) \<longrightarrow>
           fst (one_commit f current_date tally w) =
             Inr (fst tally + 1, if ok then snd tally + 1 else snd tally)))"
proof -
  assume ct: "commit_time current_date w = (t, w1)" and nw: "now w1 = (n, w2)"
  have tr1: "trace w1 = trace w" using trace_commit_time [of current_date w] ct by simp
  have fl1: "files w1 = files w"
    using ct by (auto simp: commit_time_def random_random_def randint_def choice_def step_def
        split: prod.splits if_splits)
  have tr2: "trace w2 = Now n # trace w \<and> files w2 = files w"
    using nw tr1 fl1 by (auto simp: now_def emit_def step_def)
  show ?thesis using ct nw tr2 by (auto simp: one_commit_def)
qed

lemma morning_commit_time:
  "commit_time (moment 2 0 0) morning =
     (\<lparr>day = 2, hour = 10, minute = 1, second = 1, microsecond = 0\<rparr>, morning\<lparr>tick := 4\<rparr>)"
  by (simp add: commit_time_def random_random_def randint_def choice_def step_def quiet_def
      moment_def replace_hms_def morning_def)

lemma morning_now:
  "now (morning\<lparr>tick := 4\<rparr>) =
     (moment 2 6 0, morning\<lparr>tick := 5, trace := [Now (moment 2 6 0)]\<rparr>)"
  by (simp add: now_def emit_def step_def morning_def quiet_def)

lemma morning_future:
  "dt_less (moment 2 6 0) \<lparr>day = 2, hour = 10, minute = 1, second = 1, microsecond = 0\<rparr>"
  by (simp add: dt_less_def dt_key_def moment_def)

lemma quiet_now:
  "now (quiet\<lparr>tick := 4\<rparr>) =
     (moment 2 23 30, quiet\<lparr>tick := 5, trace := [Now (moment 2 23 30)]\<rparr>)"
  by (simp add: now_def emit_def step_def quiet_def)

lemma quiet_past:
  "\<not> dt_less (moment 2 23 30) \<lparr>day = 1, hour = 10, minute = 1, second = 1, microsecond = 0\<rparr>"
  by (simp add: dt_less_def dt_key_def moment_def)

lemma quiet_create:
  "fst (create_commit late \<lparr>day = 1, hour = 10, minute = 1, second = 1, microsecond = 0\<rparr> None
     (quiet\<lparr>tick := 5, trace := [Now (moment 2 23 30)]\<rparr>)) = Inr True"
  by (simp add: run_defs quiet_def late_def)

theorem future_commit_skipped_uncounted_witness:
  "commit_time (moment 2 0 0) morning =
     (\<lparr>day = 2, hour = 10, minute = 1, second = 1, microsecond = 0\<rparr>, morning\<lparr>tick := 4\<rparr>) \<and>
   now (morning\<lparr>tick := 4\<rparr>) =
     (moment 2 6 0, morning\<lparr>tick := 5, trace := [Now (moment 2 6 0)]\<rparr>) \<and>
   dt_less (moment 2 6 0) \<lparr>day = 2, hour = 10, minute = 1, second = 1, microsecond = 0\<rparr> \<and>
   one_commit early (moment 2 0 0) (7, 5) morning =
     (Inr (7, 5), morning\<lparr>tick := 5, trace := [Now (moment 2 6 0)]\<rparr>) \<and>
   \<not> dt_less (moment 2 23 30) \<lparr>day = 1, hour = 10, minute = 1, second = 1, microsecond = 0\<rparr> \<and>
   fst (create_commit late \<lparr>day = 1, hour = 10, minute = 1, second = 1, microsecond = 0\<rparr> None
     (quiet\<lparr>tick := 5, trace := [Now (moment 2 23 30)]\<rparr>)) = Inr True \<and>
   fst (one_commit late (moment 1 0 0) (7, 5) quiet) = Inr (8, 6)"
proof -
  have c: "create_commit late \<lparr>day = 1, hour = 10, minute = 1, second = 1, microsecond = 0\<rparr> None
      (quiet\<lparr>tick := 5, trace := [Now (moment 2 23 30)]\<rparr>) =
      (Inr True, snd (create_commit late \<lparr>day = 1, hour = 10, minute = 1, second = 1, microsecond = 0\<rparr> None
      (quiet\<lparr>tick := 5, trace := [Now (moment 2 23 30)]\<rparr>)))"
    using quiet_create by (simp add: prod_eq_iff)
  have "\<forall>ok w3. create_commit late \<lparr>day = 1, hour = 10, minute = 1, second = 1, microsecond = 0\<rparr> None
      (quiet\<lparr>tick := 5, trace := [Now (moment 2 23 30)]\<rparr>) = (Inr ok, w3) \<longrightarrow>
      fst (one_commit late (moment 1 0 0) (7, 5) quiet) =
        Inr (fst (7::int, 5::int) + 1, if ok then snd (7::int, 5::int) + 1 else snd (7::int, 5::int))"
    using future_commit_skipped_uncounted [OF commit_time_quiet quiet_now, of late "(7, 5)"]
      quiet_past by blast
  from this [rule_format, OF c]
  have "fst (one_commit late (moment 1 0 0) (7, 5) quiet) = Inr (8, 6)" by simp
  then show ?thesis
    using future_commit_skipped_uncounted [OF morning_commit_time morning_now, of early "(7, 5)"]
      morning_commit_time morning_now morning_future quiet_past quiet_create
    by blast
qed

text \<open>The chosen time 10:01:01 is after the clock's 06:00, and the tally stays (0, 0)
  where the claim has (1, 0).\<close>

theorem future_commit_counted_counterexample:
  "dt_less (fst (now (snd (commit_time (moment 2 0 0) morning))))
     (fst (commit_time (moment 2 0 0) morning)) \<and>
   fst (one_commit early (moment 2 0 0) (0, 0) morning) = Inr (0, 0) \<and>
   fst (one_commit early (moment 2 0 0) (0, 0) morning) \<noteq> Inr (1, 0)"
  by (simp add: run_defs quiet_def morning_def early_def)







theorem no_commit_after_now_witness:
  "commits_guarded (trace quiet) \<and>
   commits_guarded (trace (snd (generate_commits late ''low'' quiet))) \<and>
   Call_create_commit \<lparr>day = 2, hour = 10, minute = 1, second = 1, microsecond = 0\<rparr>
     \<in> set (trace (snd (generate_commits late ''low'' quiet)))"
proof -
  have g: "commits_guarded (trace quiet)" by (simp add: quiet_def)
  have c: "Call_create_commit \<lparr>day = 2, hour = 10, minute = 1, second = 1, microsecond = 0\<rparr>
     \<in> set (trace (snd (generate_commits late ''low'' quiet)))"
    by (simp add: run_defs quiet_def late_def)
  from no_commit_after_now [OF g, of late "''low''"] g c show ?thesis by blast
qed


section \<open>Dry run and the data log\<close>


lemma micros_split:
  "micros d = day d * 86400000000 + (((hour d * 60 + minute d) * 60 + second d) * 1000000 + microsecond d)"
  by (simp add: micros_def algebra_simps)

lemma time_of_day_range:
  assumes "valid_time d"
  shows "0 \<le> ((hour d * 60 + minute d) * 60 + second d) * 1000000 + microsecond d"
    and "((hour d * 60 + minute d) * 60 + second d) * 1000000 + microsecond d < 86400000000"
  using assms by (auto simp: valid_time_def)

lemma delta_days_midnight:
  assumes "valid_time n"
  shows "delta_days n \<lparr>day = d, hour = 0, minute = 0, second = 0, microsecond = 0\<rparr> = day n - d"
proof -
  define r where "r = ((hour n * 60 + minute n) * 60 + second n) * 1000000 + microsecond n"
  have r: "0 \<le> r" "r < 86400000000" using time_of_day_range [OF assms] by (simp_all add: r_def)
  have "micros n - micros \<lparr>day = d, hour = 0, minute = 0, second = 0, microsecond = 0\<rparr> =
      (day n - d) * 86400000000 + r"
    by (simp add: micros_split [of n] r_def micros_def algebra_simps)
  then have "delta_days n \<lparr>day = d, hour = 0, minute = 0, second = 0, microsecond = 0\<rparr> =
      ((day n - d) * 86400000000 + r) div 86400000000"
    by (simp add: delta_days_def)
  also have "\<dots> = day n - d" using r by simp
  finally show ?thesis .
qed

text \<open>
  C7. A dry run with a well-formed start date returns from \<open>main\<close> without any
  file-system or git event and without changing a file or the working directory, and the
  last thing it prints (line 443) is the number of whole days from the start date to the
  clock reading taken for it.
\<close>

theorem dry_run_reports_days_without_mutation:
  "arg_dry_run a \<Longrightarrow> strptime_ymd w (arg_start_date a) = Some d \<Longrightarrow>
   valid_time (clock w (Suc (tick w))) \<Longrightarrow>
     fst (main a w) = Returns \<and>
     files (snd (main a w)) = files w \<and> cwd (snd (main a w)) = cwd w \<and>
     filter mutation (trace (snd (main a w))) = filter mutation (trace w) \<and>
     hd (trace (snd (main a w))) = Print 443 [P_int (day (clock w (Suc (tick w))) - d)]"
proof -
  assume dry: "arg_dry_run a" and ok: "strptime_ymd w (arg_start_date a) = Some d"
    and vt: "valid_time (clock w (Suc (tick w)))"
  have days: "delta_days (clock w (Suc (tick w)))
      \<lparr>day = d, hour = 0, minute = 0, second = 0, microsecond = 0\<rparr> = day (clock w (Suc (tick w))) - d"
    using vt by (rule delta_days_midnight)
  show ?thesis using dry ok days
    by (simp add: main_def parse_date_def now_def print_at_def emit_def step_def)
qed

theorem dry_run_reports_days_without_mutation_witness:
  "arg_dry_run dry \<and> strptime_ymd quiet (arg_start_date dry) = Some 1 \<and>
   valid_time (clock quiet (Suc (tick quiet))) \<and>
   fst (main dry quiet) = Returns \<and> files (snd (main dry quiet)) = files quiet \<and>
   filter mutation (trace (snd (main dry quiet))) = [] \<and>
   hd (trace (snd (main dry quiet))) = Print 443 [P_int 1]"
proof -
  have a: "arg_dry_run dry" by (simp add: dry_def)
  have b: "strptime_ymd quiet (arg_start_date dry) = Some 1" by (simp add: quiet_def)
  have c: "valid_time (clock quiet (Suc (tick quiet)))"
    by (simp add: quiet_def valid_time_def moment_def)
  have d: "filter mutation (trace quiet) = []" "day (clock quiet (Suc (tick quiet))) - 1 = 1"
    by (simp_all add: quiet_def moment_def)
  from dry_run_reports_days_without_mutation [OF a b c] a b c d show ?thesis by simp
qed

lemma stage_and_commit_effect:
  "files (snd (stage_and_commit ds m w)) = files w \<and>
   (\<exists>evs. trace (snd (stage_and_commit ds m w)) =
      evs @ [Run [''git'', ''add'', ''.''] (Some ds) (git_tool w [''git'', ''add'', ''.''] (tick w))] @ trace w)"
  by (auto simp: stage_and_commit_def run_git_command_def subprocess_run_def print_at_def
      emit_def step_def split: outcome.splits)

text \<open>
  C10. When \<open>data.txt\<close> can be opened, every call of \<open>create_commit\<close> appends its
  line (timestamp and a tag in 1000..9999) before the first git command runs, and the
  line is still the last one of the file when the call ends, whatever git answered and
  whatever the call returns; the sample run returns \<open>False\<close> with the line in place.
\<close>

theorem create_commit_not_atomic:
  "\<forall>n. fs_fault w (Op_open_append (path_join (repo_path f) ''data.txt'')) n = None \<Longrightarrow>
     \<exists>tag evs out. 1000 \<le> tag \<and> tag \<le> 9999 \<and>
       files (snd (create_commit f date message w)) (path_join (repo_path f) ''data.txt'') =
         Some ((case files w (path_join (repo_path f) ''data.txt'') of None \<Rightarrow> [] | Some ls \<Rightarrow> ls)
               @ [Entrada (strftime_full date) tag]) \<and>
       trace (snd (create_commit f date message w)) =
         evs @ [Run [''git'', ''add'', ''.''] (Some (strftime_full date)) out,
                Append_file (path_join (repo_path f) ''data.txt'') (Entrada (strftime_full date) tag),
                Call_create_commit date] @ trace w"
proof -
  assume openable: "\<forall>n. fs_fault w (Op_open_append (path_join (repo_path f) ''data.txt'')) n = None"
  define p where "p = path_join (repo_path f) ''data.txt''"
  define w0 where "w0 = emit (Call_create_commit date) w"
  obtain m w1 where c: "(case message of Some (c # cs) \<Rightarrow> (c # cs, w0) | _ \<Rightarrow> choice messages w0) = (m, w1)"
    by (cases "case message of Some (c # cs) \<Rightarrow> (c # cs, w0) | _ \<Rightarrow> choice messages w0")
  have w1: "trace w1 = Call_create_commit date # trace w" "files w1 = files w"
      "fs_fault w1 = fs_fault w"
    using c by (auto simp: w0_def emit_def choice_def step_def split: option.splits list.splits)
  obtain tag w2 where r: "randint 1000 9999 (step w1) = (tag, w2)"
    by (cases "randint 1000 9999 (step w1)")
  have tag: "1000 \<le> tag \<and> tag \<le> 9999" using randint_bounds [of 1000 9999 "step w1"] r by simp
  have w2: "trace w2 = trace w1" "files w2 = files w1"
    using r by (auto simp: randint_def step_def)
  define w3 where "w3 = append_file p (Entrada (strftime_full date) tag) w2"
  have w3: "trace w3 = Append_file p (Entrada (strftime_full date) tag) # Call_create_commit date # trace w"
      "files w3 p = Some ((case files w p of None \<Rightarrow> [] | Some ls \<Rightarrow> ls) @ [Entrada (strftime_full date) tag])"
    using w1 w2 by (auto simp: w3_def append_file_def emit_def split: option.splits)
  have run: "create_commit f date message w = stage_and_commit (strftime_full date) m w3"
    using c r openable w1(3)
    unfolding create_commit_def w0_def [symmetric] p_def [symmetric] w3_def
    by simp
  from stage_and_commit_effect [of "strftime_full date" m w3] obtain evs where
    e: "files (snd (stage_and_commit (strftime_full date) m w3)) = files w3"
      "trace (snd (stage_and_commit (strftime_full date) m w3)) =
        evs @ [Run [''git'', ''add'', ''.''] (Some (strftime_full date))
                 (git_tool w3 [''git'', ''add'', ''.''] (tick w3))] @ trace w3"
    by blast
  show ?thesis using tag run e w3 unfolding p_def [symmetric]
    by (intro exI [of _ tag] exI [of _ evs]
        exI [of _ "git_tool w3 [''git'', ''add'', ''.''] (tick w3)"]) simp
qed

lemma rejecting_commit:
  "fst (create_commit late (moment 1 10 0) None rejecting) = Inr False \<and>
   files (snd (create_commit late (moment 1 10 0) None rejecting)) ''./data.txt'' =
     Some [Entrada (Date_time_text 1 10 0 0) 1001]"
  by (simp add: run_defs quiet_def late_def rejecting_def)

theorem create_commit_not_atomic_witness:
  "(\<forall>n. fs_fault rejecting (Op_open_append (path_join (repo_path late) ''data.txt'')) n = None) \<and>
   fst (create_commit late (moment 1 10 0) None rejecting) = Inr False \<and>
   files rejecting ''./data.txt'' = None \<and>
   files (snd (create_commit late (moment 1 10 0) None rejecting)) ''./data.txt'' =
     Some [Entrada (Date_time_text 1 10 0 0) 1001] \<and>
   (\<exists>evs out. trace (snd (create_commit late (moment 1 10 0) None rejecting)) =
      evs @ [Run [''git'', ''add'', ''.''] (Some (Date_time_text 1 10 0 0)) out,
             Append_file ''./data.txt'' (Entrada (Date_time_text 1 10 0 0) 1001),
             Call_create_commit (moment 1 10 0)])"
proof -
  have a: "\<forall>n. fs_fault rejecting (Op_open_append (path_join (repo_path late) ''data.txt'')) n = None"
    by (simp add: rejecting_def quiet_def)
  have p: "path_join (repo_path late) ''data.txt'' = ''./data.txt''"
    by (simp add: path_join_def late_def)
  have s: "strftime_full (moment 1 10 0) = Date_time_text 1 10 0 0"
    by (simp add: strftime_full_def moment_def)
  have n: "files rejecting ''./data.txt'' = None" "trace rejecting = []"
    by (simp_all add: rejecting_def quiet_def)
  from create_commit_not_atomic [OF a, of "moment 1 10 0" None] obtain tag evs out where
    t: "files (snd (create_commit late (moment 1 10 0) None rejecting)) ''./data.txt'' =
         Some ([] @ [Entrada (Date_time_text 1 10 0 0) tag])"
      "trace (snd (create_commit late (moment 1 10 0) None rejecting)) =
         evs @ [Run [''git'', ''add'', ''.''] (Some (Date_time_text 1 10 0 0)) out,
                Append_file ''./data.txt'' (Entrada (Date_time_text 1 10 0 0) tag),
                Call_create_commit (moment 1 10 0)]"
    unfolding p s by (auto simp: n)
  have "tag = 1001" using t(1) rejecting_commit by simp
  then show ?thesis using a n rejecting_commit t(2) by blast
qed


section \<open>Setting up an existing repository\<close>

















section \<open>How the program ends\<close>








































end
